theory Spec2Isabelle
  imports Complex_Main
begin

section \<open>The E2B MCP gateway (e2b-mcp-gateway/server.js)\<close>

text \<open>
  The gateway answers each HTTP call by spawning a fresh subprocess, speaking
  line-delimited JSON-RPC with it over its standard streams, and returning the line
  whose \<open>id\<close> equals the caller's. The model follows \<open>server.js\<close>: the closure
  variables of \<open>callMcpServer\<close> are a record, every callback registered on the
  subprocess is a function on that record, and what the subprocess and the clock do is
  a list of events.
\<close>

subsection \<open>JavaScript values\<close>

text \<open>
  A value produced by \<open>JSON.parse\<close> (or by \<open>express.json()\<close> for a request body).
  Numbers are their mathematical value; the keys of an object are listed once each.
  The JavaScript value \<open>undefined\<close> is \<open>None\<close> of \<open>json option\<close>.
\<close>

datatype json =
    JNull
  | JBool bool
  | JNum rat
  | JStr string
  | JArr "json list"
  | JObj "(string \<times> json) list"

datatype type_error = TypeError

text \<open>
  Reading a property \<open>v.k\<close> for the names this program reads (\<open>id\<close>, \<open>code\<close>,
  \<open>result\<close>, \<open>error\<close>; no prototype defines them): \<open>null.k\<close> throws a
  TypeError, an object yields its own property or \<open>undefined\<close>, every other value
  yields \<open>undefined\<close>.
\<close>

fun get_prop :: "string \<Rightarrow> json \<Rightarrow> type_error + json option" where
  "get_prop k JNull = Inl TypeError"
| "get_prop k (JObj kvs) = Inr (map_of kvs k)"
| "get_prop k v = Inr None"

fun primitive :: "json \<Rightarrow> bool" where
  "primitive (JArr xs) = False"
| "primitive (JObj kvs) = False"
| "primitive v = True"

text \<open>
  \<open>a === b\<close> between a property of a freshly parsed message and a property of the
  request: primitives compare by value, arrays and objects by reference, and the two
  sides never share a reference.
\<close>

fun strict_eq :: "json option \<Rightarrow> json option \<Rightarrow> bool" where
  "strict_eq None None = True"
| "strict_eq (Some a) (Some b) = (primitive a \<and> a = b)"
| "strict_eq a b = False"

text \<open>JavaScript truthiness, as \<open>!code\<close> and \<open>a || b\<close> test it.\<close>

fun truthy :: "json option \<Rightarrow> bool" where
  "truthy None = False"
| "truthy (Some JNull) = False"
| "truthy (Some (JBool b)) = b"
| "truthy (Some (JNum n)) = (n \<noteq> 0)"
| "truthy (Some (JStr s)) = (s \<noteq> [])"
| "truthy (Some v) = True"

definition js_or :: "json option \<Rightarrow> json option \<Rightarrow> json option" where
  "js_or a b = (if truthy a then a else b)"

text \<open>An \<open>Error\<close> object; only its \<open>message\<close> is read.\<close>

datatype error = Error (message: string)

subsection \<open>Strings: lines and trimming\<close>

definition newline :: char where
  "newline = CHR 0x0A"

text \<open>
  \<open>s.split('\n')\<close>: the segments between newlines, at least one (the empty string
  splits into one empty segment).
\<close>

fun split_nl :: "string \<Rightarrow> string list" where
  "split_nl [] = [[]]"
| "split_nl (c # cs) =
     (if c = newline then [] # split_nl cs
      else (case split_nl cs of [] \<Rightarrow> [[c]] | l # ls \<Rightarrow> (c # l) # ls))"

text \<open>
  \<open>String.prototype.trim\<close> strips white space and line terminators from both ends;
  among the characters below 256 these are TAB, LF, VT, FF, CR, SPACE and NBSP.
\<close>

definition whitespace :: "char \<Rightarrow> bool" where
  "whitespace c = (c \<in> {CHR 0x09, CHR 0x0A, CHR 0x0B, CHR 0x0C, CHR 0x0D, CHR 0x20, CHR 0xA0})"

definition trim :: "string \<Rightarrow> string" where
  "trim s = rev (dropWhile whitespace (rev (dropWhile whitespace s)))"

text \<open>The decimal text of a number, as a template literal prints an exit code.\<close>

fun show_nat :: "nat \<Rightarrow> string" where
  "show_nat n =
     (if n < 10 then [char_of (48 + n)]
      else show_nat (n div 10) @ [char_of (48 + n mod 10)])"

definition show_int :: "int \<Rightarrow> string" where
  "show_int i = (if i < 0 then CHR ''-'' # show_nat (nat (- i)) else show_nat (nat i))"

subsection \<open>A session: the closure of callMcpServer\<close>

datatype settlement = Pending | Resolved json | Rejected error

text \<open>
  The variables of one call: the two text buffers, the two flags, the timer
  (\<open>timeoutId\<close>: the milliseconds left until it fires, \<open>None\<close> once cleared or
  fired), what was written to the subprocess's stdin (each entry \<open>v\<close> stands for the
  line \<open>JSON.stringify(v) + '\n'\<close>), how often \<open>proc.kill()\<close> was called, and
  the promise. A promise settles once: later calls of \<open>resolve\<close> and \<open>reject\<close>
  change nothing. \<open>clock\<close> and \<open>settledAt\<close> are ghost fields: the milliseconds
  since the call, and the clock when the promise settled.
\<close>

record session =
  stdout :: string
  stderr :: string
  initialized :: bool
  requestSent :: bool
  timeoutId :: "nat option"
  stdin :: "json list"
  kills :: nat
  promise :: settlement
  clock :: nat
  settledAt :: "nat option"

definition clearTimeout :: "session \<Rightarrow> session" where
  "clearTimeout s = s\<lparr>timeoutId := None\<rparr>"

definition kill :: "session \<Rightarrow> session" where
  "kill s = s\<lparr>kills := Suc (kills s)\<rparr>"

definition settle :: "settlement \<Rightarrow> session \<Rightarrow> session" where
  "settle r s =
     (if promise s = Pending then s\<lparr>promise := r, settledAt := Some (clock s)\<rparr> else s)"

definition resolve :: "json \<Rightarrow> session \<Rightarrow> session" where
  "resolve msg = settle (Resolved msg)"

definition reject :: "error \<Rightarrow> session \<Rightarrow> session" where
  "reject err = settle (Rejected err)"

definition write_stdin :: "json \<Rightarrow> session \<Rightarrow> session" where
  "write_stdin v s = s\<lparr>stdin := stdin s @ [v]\<rparr>"

text \<open>The handshake message of lines 99 to 108.\<close>

definition initMsg :: json where
  "initMsg = JObj
     [(''jsonrpc'', JStr ''2.0''),
      (''id'', JStr ''init''),
      (''method'', JStr ''initialize''),
      (''params'', JObj
         [(''protocolVersion'', JStr ''2024-11-05''),
          (''capabilities'', JObj []),
          (''clientInfo'', JObj [(''name'', JStr ''letta-gateway''), (''version'', JStr ''1.0.0'')])])]"

text \<open>
  The body of the loop over complete lines (lines 57 to 78). \<open>parse\<close> is
  \<open>JSON.parse\<close>, \<open>None\<close> where it throws a SyntaxError. Every exception raised
  inside the \<open>try\<close> block is swallowed by the \<open>catch\<close>: the SyntaxError of a line
  that is not JSON, and the TypeError of \<open>msg.id\<close> or \<open>request.id\<close> on \<open>null\<close>.
  The loop does not stop at a match.
\<close>

definition process_line :: "(string \<Rightarrow> json option) \<Rightarrow> json \<Rightarrow> string \<Rightarrow> session \<Rightarrow> session" where
  "process_line parse request raw s =
     (let line = trim raw in
      if line = [] then s
      else (case parse line of
          None \<Rightarrow> s
        | Some msg \<Rightarrow>
            (case get_prop ''id'' msg of
               Inl TypeError \<Rightarrow> s
             | Inr mid \<Rightarrow>
                 if mid = Some (JStr ''init'') \<and> \<not> initialized s
                 then (write_stdin request (s\<lparr>initialized := True\<rparr>))\<lparr>requestSent := True\<rparr>
                 else (case get_prop ''id'' request of
                     Inl TypeError \<Rightarrow> s
                   | Inr rid \<Rightarrow>
                       if strict_eq mid rid then resolve msg (kill (clearTimeout s)) else s))))"

text \<open>The \<open>data\<close> callback of \<open>proc.stdout\<close> (lines 52 to 81).\<close>

definition on_stdout :: "(string \<Rightarrow> json option) \<Rightarrow> json \<Rightarrow> string \<Rightarrow> session \<Rightarrow> session" where
  "on_stdout parse request chunk s =
     (let s1 = s\<lparr>stdout := stdout s @ chunk\<rparr>;
          lines = split_nl (stdout s1);
          s2 = fold (process_line parse request) (butlast lines) s1
      in s2\<lparr>stdout := last lines\<rparr>)"

text \<open>The \<open>data\<close> callback of \<open>proc.stderr\<close> (lines 83 to 85).\<close>

definition on_stderr :: "string \<Rightarrow> session \<Rightarrow> session" where
  "on_stderr chunk s = s\<lparr>stderr := stderr s @ chunk\<rparr>"

text \<open>The \<open>error\<close> callback of the subprocess (lines 87 to 90).\<close>

definition on_error :: "error \<Rightarrow> session \<Rightarrow> session" where
  "on_error err s = reject err (clearTimeout s)"

text \<open>The \<open>exit\<close> callback (lines 92 to 96); the code is \<open>null\<close> when a signal ended the process.\<close>

definition on_exit :: "int option \<Rightarrow> session \<Rightarrow> session" where
  "on_exit code s =
     (case code of
        None \<Rightarrow> s
      | Some c \<Rightarrow>
          if c \<noteq> 0
          then reject (Error (''MCP server exited with code '' @ show_int c @ '': '' @ stderr s)) s
          else s)"

text \<open>The timer callback (lines 111 to 114).\<close>

definition timeout_ms :: nat where
  "timeout_ms = 60000"

definition on_timeout :: "session \<Rightarrow> session" where
  "on_timeout s = reject (Error ''MCP server timeout after 60s'') (kill s)"

text \<open>
  The passing of \<open>d\<close> milliseconds: an armed timer with no more than \<open>d\<close> left
  fires, at the moment it is due.
\<close>

definition elapse :: "nat \<Rightarrow> session \<Rightarrow> session" where
  "elapse d s =
     (case timeoutId s of
        None \<Rightarrow> s\<lparr>clock := clock s + d\<rparr>
      | Some r \<Rightarrow>
          if d < r then s\<lparr>clock := clock s + d, timeoutId := Some (r - d)\<rparr>
          else (let s1 = on_timeout (s\<lparr>clock := clock s + r, timeoutId := None\<rparr>)
                in s1\<lparr>clock := clock s1 + (d - r)\<rparr>))"

text \<open>
  What happens to a session after the call: the events of its subprocess, and time.
  \<open>StdoutData text\<close> is a \<open>data\<close> event of the stdout stream whose chunk reads
  \<open>chunk.toString() = text\<close>, and likewise \<open>StderrData\<close>; \<open>ProcError err\<close> is the
  \<open>error\<close> event, \<open>ProcExit code\<close> the \<open>exit\<close> event, \<open>Elapse d\<close> the passing of
  \<open>d\<close> milliseconds with no event of the subprocess. The callbacks stay registered
  for the whole life of the subprocess, so every event is handled, settled or not.
\<close>

datatype event =
    StdoutData string
  | StderrData string
  | ProcError error
  | ProcExit "int option"
  | Elapse nat

fun handle :: "(string \<Rightarrow> json option) \<Rightarrow> json \<Rightarrow> event \<Rightarrow> session \<Rightarrow> session" where
  "handle parse request (StdoutData chunk) s = on_stdout parse request chunk s"
| "handle parse request (StderrData chunk) s = on_stderr chunk s"
| "handle parse request (ProcError err) s = on_error err s"
| "handle parse request (ProcExit code) s = on_exit code s"
| "handle parse request (Elapse d) s = elapse d s"

text \<open>
  The synchronous part of the call (lines 39 to 114): the subprocess is spawned, the
  callbacks are registered, the handshake is written and the timer is armed.
\<close>

definition spawned :: session where
  "spawned = \<lparr>stdout = [], stderr = [], initialized = False, requestSent = False,
     timeoutId = Some timeout_ms, stdin = [initMsg], kills = 0, promise = Pending,
     clock = 0, settledAt = None\<rparr>"

definition run :: "(string \<Rightarrow> json option) \<Rightarrow> json \<Rightarrow> event list \<Rightarrow> session \<Rightarrow> session" where
  "run parse request evs s = fold (handle parse request) evs s"

text \<open>
  \<open>callMcpServer\<close>: the session after the events that follow the call. The caller
  holds the promise; \<open>awaited\<close> is what an \<open>await\<close> on it yields once the listed
  events are over and time goes on, with the time of settlement: \<open>Inr\<close> the resolved
  message, \<open>Inl\<close> the error thrown, \<open>None\<close> when the promise would stay pending.
\<close>

definition callMcpServer :: "(string \<Rightarrow> json option) \<Rightarrow> json \<Rightarrow> event list \<Rightarrow> session" where
  "callMcpServer parse request evs = run parse request evs spawned"

definition awaited :: "(string \<Rightarrow> json option) \<Rightarrow> json \<Rightarrow> event list \<Rightarrow> (nat \<times> (error + json)) option" where
  "awaited parse request evs =
     (let s = callMcpServer parse request (evs @ [Elapse timeout_ms]) in
      case (promise s, settledAt s) of
        (Resolved msg, Some t) \<Rightarrow> Some (t, Inr msg)
      | (Rejected err, Some t) \<Rightarrow> Some (t, Inl err)
      | _ \<Rightarrow> None)"

subsection \<open>The HTTP handlers\<close>

text \<open>
  \<open>Promise.all\<close> over the promises of the sessions, each given by its settlement
  (or \<open>None\<close> while pending for ever): it rejects as soon as the first promise rejects,
  with that error, and resolves once all have resolved, with the values in the order of
  the promises. Two rejections at the same millisecond are taken in list order.
\<close>

fun rejections :: "(nat \<times> (error + json)) option list \<Rightarrow> (nat \<times> error) list" where
  "rejections [] = []"
| "rejections (Some (t, Inl e) # ps) = (t, e) # rejections ps"
| "rejections (p # ps) = rejections ps"

fun resolutions :: "(nat \<times> (error + json)) option list \<Rightarrow> (nat \<times> json) list option" where
  "resolutions [] = Some []"
| "resolutions (Some (t, Inr v) # ps) =
     (case resolutions ps of None \<Rightarrow> None | Some vs \<Rightarrow> Some ((t, v) # vs))"
| "resolutions (p # ps) = None"

definition earliest :: "(nat \<times> error) \<Rightarrow> (nat \<times> error) list \<Rightarrow> nat \<times> error" where
  "earliest r rs = fold (\<lambda>x best. if fst x < fst best then x else best) rs r"

definition promise_all :: "(nat \<times> (error + json)) option list \<Rightarrow> (nat \<times> (error + json list)) option" where
  "promise_all ps =
     (case rejections ps of
        r # rs \<Rightarrow> (case earliest r rs of (t, e) \<Rightarrow> Some (t, Inl e))
      | [] \<Rightarrow>
          (case resolutions ps of
             None \<Rightarrow> None
           | Some vs \<Rightarrow> Some (fold max (map fst vs) 0, Inr (map snd vs))))"

text \<open>
  What a handler sends: the status, the JSON body (\<open>None\<close> for \<open>res.json(undefined)\<close>)
  and, as a ghost field, the milliseconds after the request at which it is sent.
\<close>

record reply =
  status :: nat
  payload :: "json option"
  sentAt :: nat

datatype handled = NoReply | Uncaught type_error | Replied reply

text \<open>
  One HTTP exchange: the requests handed to \<open>callMcpServer\<close> (each call spawns one
  subprocess, line 39), and how the handler ends.
\<close>

record exchange =
  dispatched :: "json list"
  outcome :: handled

text \<open>\<open>a || null\<close>.\<close>

definition or_null :: "json option \<Rightarrow> json" where
  "or_null a = (case a of None \<Rightarrow> JNull | Some v \<Rightarrow> if truthy (Some v) then v else JNull)"

text \<open>
  \<open>POST /mcp\<close> (lines 122 to 146). A body that is not an array is a batch of one
  (line 126). \<open>env i\<close> is what happens to the subprocess of the \<open>i\<close>-th session; all
  sessions start with the request. In the \<open>catch\<close> block \<open>body.id\<close> is read outside
  any \<open>try\<close>.
\<close>

definition requests_of :: "json \<Rightarrow> json list" where
  "requests_of body = (case body of JArr xs \<Rightarrow> xs | _ \<Rightarrow> [body])"

definition sessions :: "(string \<Rightarrow> json option) \<Rightarrow> json list \<Rightarrow> (nat \<Rightarrow> event list)
    \<Rightarrow> (nat \<times> (error + json)) option list" where
  "sessions parse requests env =
     map (\<lambda>(i, r). awaited parse r (env i)) (zip [0..<length requests] requests)"

definition error_envelope :: "json option \<Rightarrow> error \<Rightarrow> json" where
  "error_envelope bid err = JObj
     [(''jsonrpc'', JStr ''2.0''),
      (''id'', or_null bid),
      (''error'', JObj [(''code'', JNum (- 32603)), (''message'', JStr (message err))])]"

definition post_mcp :: "(string \<Rightarrow> json option) \<Rightarrow> json \<Rightarrow> (nat \<Rightarrow> event list) \<Rightarrow> exchange" where
  "post_mcp parse body env =
     (let requests = requests_of body in
      \<lparr>dispatched = requests,
       outcome =
         (case promise_all (sessions parse requests env) of
            None \<Rightarrow> NoReply
          | Some (t, Inr responses) \<Rightarrow>
              Replied \<lparr>status = 200,
                payload = (case body of
                    JArr xs \<Rightarrow> Some (JArr responses)
                  | _ \<Rightarrow> (case responses of [] \<Rightarrow> None | r # rs \<Rightarrow> Some r)),
                sentAt = t\<rparr>
          | Some (t, Inl err) \<Rightarrow>
              (case get_prop ''id'' body of
                 Inl TypeError \<Rightarrow> Uncaught TypeError
               | Inr bid \<Rightarrow>
                   Replied \<lparr>status = 500, payload = Some (error_envelope bid err), sentAt = t\<rparr>))\<rparr>)"

text \<open>
  \<open>POST /run\<close> (lines 188 to 210). \<open>uuid\<close> is what \<open>crypto.randomUUID()\<close>
  returns. Reading \<open>response.result\<close> happens inside the \<open>try\<close>, so a TypeError
  there reaches the \<open>catch\<close>.
\<close>

definition run_request :: "string \<Rightarrow> json \<Rightarrow> json" where
  "run_request uuid code = JObj
     [(''jsonrpc'', JStr ''2.0''),
      (''id'', JStr uuid),
      (''method'', JStr ''tools/call''),
      (''params'', JObj [(''name'', JStr ''run_code''), (''arguments'', JObj [(''code'', code)])])]"

definition post_run :: "(string \<Rightarrow> json option) \<Rightarrow> string \<Rightarrow> json \<Rightarrow> event list \<Rightarrow> exchange" where
  "post_run parse uuid body env =
     (case get_prop ''code'' body of
        Inl TypeError \<Rightarrow> \<lparr>dispatched = [], outcome = Uncaught TypeError\<rparr>
      | Inr None \<Rightarrow>
          \<lparr>dispatched = [],
           outcome = Replied \<lparr>status = 400,
             payload = Some (JObj [(''error'', JStr ''code is required'')]), sentAt = 0\<rparr>\<rparr>
      | Inr (Some code) \<Rightarrow>
          if \<not> truthy (Some code)
          then \<lparr>dispatched = [],
                outcome = Replied \<lparr>status = 400,
                  payload = Some (JObj [(''error'', JStr ''code is required'')]), sentAt = 0\<rparr>\<rparr>
          else
            (let request = run_request uuid code in
             \<lparr>dispatched = [request],
              outcome =
                (case awaited parse request env of
                   None \<Rightarrow> NoReply
                 | Some (t, Inr response) \<Rightarrow>
                     (case (get_prop ''result'' response, get_prop ''error'' response) of
                        (Inr res, Inr err) \<Rightarrow>
                          Replied \<lparr>status = 200, payload = js_or res err, sentAt = t\<rparr>
                      | _ \<Rightarrow>
                          Replied \<lparr>status = 500,
                            payload = Some (JObj [(''error'',
                              JStr ''Cannot read properties of null (reading 'result')'')]),
                            sentAt = t\<rparr>)
                 | Some (t, Inl err) \<Rightarrow>
                     Replied \<lparr>status = 500,
                       payload = Some (JObj [(''error'', JStr (message err))]), sentAt = t\<rparr>)\<rparr>))"

subsection \<open>Reading a list of events\<close>

text \<open>The milliseconds that pass during a list of events.\<close>

fun elapsed :: "event list \<Rightarrow> nat" where
  "elapsed [] = 0"
| "elapsed (Elapse d # evs) = d + elapsed evs"
| "elapsed (e # evs) = elapsed evs"



definition unlines :: "string list \<Rightarrow> string" where
  "unlines ls = concat (map (\<lambda>l. l @ [newline]) ls)"

text \<open>
  A message answers the request: its \<open>id\<close> is \<open>===\<close> the \<open>id\<close> of the request
  (the test of line 71). A line carries the caller's identifier: it is not blank, it
  parses, and the message answers the request.
\<close>

definition answers :: "json \<Rightarrow> json \<Rightarrow> bool" where
  "answers request msg =
     (case (get_prop ''id'' msg, get_prop ''id'' request) of
        (Inr mid, Inr rid) \<Rightarrow> strict_eq mid rid
      | _ \<Rightarrow> False)"

definition correlates :: "(string \<Rightarrow> json option) \<Rightarrow> json \<Rightarrow> string \<Rightarrow> bool" where
  "correlates parse request raw =
     (trim raw \<noteq> [] \<and>
      (case parse (trim raw) of None \<Rightarrow> False | Some msg \<Rightarrow> answers request msg))"



text \<open>The two errors \<open>callMcpServer\<close> makes itself.\<close>

definition timeout_error :: error where
  "timeout_error = Error ''MCP server timeout after 60s''"

definition exit_error :: "int \<Rightarrow> string \<Rightarrow> error" where
  "exit_error c err_text = Error (''MCP server exited with code '' @ show_int c @ '': '' @ err_text)"


subsection \<open>Notions used in the proofs\<close>

text \<open>The first branch of the loop body: the handshake is acknowledged, the request is forwarded.\<close>

definition handshake :: "json \<Rightarrow> session \<Rightarrow> session" where
  "handshake request s = (write_stdin request (s\<lparr>initialized := True\<rparr>))\<lparr>requestSent := True\<rparr>"

text \<open>
  What every reachable session satisfies: a cleared timer means a settled promise, an
  armed timer is due at the ceiling, nothing is killed while the promise is pending, and
  a settled promise has its time of settlement, at most the ceiling.
\<close>

definition inv :: "session \<Rightarrow> bool" where
  "inv s = ((timeoutId s = None \<longrightarrow> promise s \<noteq> Pending)
          \<and> (\<forall>r. timeoutId s = Some r \<longrightarrow> 0 < r \<and> clock s + r = timeout_ms)
          \<and> (promise s = Pending \<longrightarrow> kills s = 0 \<and> settledAt s = None)
          \<and> (promise s \<noteq> Pending \<longrightarrow> (\<exists>t. settledAt s = Some t \<and> t \<le> timeout_ms \<and> t \<le> clock s)))"

subsection \<open>Concrete lines, requests and subprocesses for the examples\<close>

text \<open>
  The handshake acknowledgement, a response to the request \<open>abc\<close>, the two pieces
  of that response from the specification's example, and a log line that is not JSON.
\<close>

definition ack_line :: string where
  \<open>ack_line = ''{"jsonrpc":"2.0","id":"init","result":{}}''\<close>

definition abc_line :: string where
  \<open>abc_line = ''{"jsonrpc":"2.0","id":"abc","result":{}}''\<close>



definition log_line :: string where
  "log_line = ''E2B MCP server running on stdio''"

definition ack_msg :: json where
  "ack_msg = JObj [(''jsonrpc'', JStr ''2.0''), (''id'', JStr ''init''), (''result'', JObj [])]"

definition abc_msg :: json where
  "abc_msg = JObj [(''jsonrpc'', JStr ''2.0''), (''id'', JStr ''abc''), (''result'', JObj [])]"

definition abc_request :: json where
  "abc_request = JObj [(''jsonrpc'', JStr ''2.0''), (''id'', JStr ''abc''),
     (''method'', JStr ''tools/list''), (''params'', JObj [])]"

text \<open>
  \<open>JSON.parse\<close> on the lines the examples use: the value of the two JSON lines; the
  other lines of the examples are not JSON.
\<close>

definition example_parse :: "string \<Rightarrow> json option" where
  "example_parse line =
     (if line = ack_line then Some ack_msg
      else if line = abc_line then Some abc_msg
      else None)"

text \<open>The session once the handshake is acknowledged and the request is forwarded.\<close>

definition acked :: "json \<Rightarrow> session" where
  "acked request =
     spawned\<lparr>initialized := True, stdin := [initMsg, request], requestSent := True\<rparr>"

text \<open>The session of the request \<open>abc\<close> once its response has resolved the promise.\<close>

definition answered :: session where
  "answered = (acked abc_request)\<lparr>timeoutId := None, kills := 1, promise := Resolved abc_msg,
     settledAt := Some 0\<rparr>"

text \<open>A request whose caller chose the identifier \<open>init\<close>.\<close>

definition init_request :: json where
  "init_request = JObj [(''jsonrpc'', JStr ''2.0''), (''id'', JStr ''init''),
     (''method'', JStr ''tools/list''), (''params'', JObj [])]"


definition answers_at_once :: "event list" where
  "answers_at_once = [StdoutData (unlines [ack_line, abc_line])]"


section \<open>Properties\<close>

subsection \<open>Splitting into lines\<close>

lemma split_nl_ne: "split_nl s \<noteq> []"
  by (induction s) (auto split: list.splits)

lemma split_nl_append:
  "split_nl (a @ b) = butlast (split_nl a) @ split_nl (last (split_nl a) @ b)"
proof (induction a)
  case Nil
  show ?case by simp
next
  case (Cons c a)
  show ?case
  proof (cases "c = newline")
    case True
    with Cons split_nl_ne [of a] show ?thesis by simp
  next
    case False
    obtain l ls where sp: "split_nl a = l # ls"
      using split_nl_ne [of a] by (cases "split_nl a") auto
    show ?thesis
    proof (cases ls)
      case Nil
      with False sp Cons show ?thesis by simp
    next
      case (Cons m ms)
      with False sp Cons.IH show ?thesis by simp
    qed
  qed
qed



lemma split_nl_no_newline: "newline \<notin> set r \<Longrightarrow> split_nl r = [r]"
  by (induction r) auto

lemma split_nl_line: "newline \<notin> set l \<Longrightarrow> split_nl (l @ newline # t) = l # split_nl t"
  by (induction l) auto

lemma split_nl_unlines:
  "\<forall>l\<in>set ls. newline \<notin> set l \<Longrightarrow> newline \<notin> set r \<Longrightarrow>
   split_nl (concat (map (\<lambda>l. l @ [newline]) ls) @ r) = ls @ [r]"
  by (induction ls) (auto simp: split_nl_no_newline split_nl_line)

subsection \<open>The stdout callback\<close>

lemma process_line_stdout:
  "process_line parse request raw (s\<lparr>stdout := x\<rparr>) =
   (process_line parse request raw s)\<lparr>stdout := x\<rparr>"
  by (simp add: process_line_def Let_def write_stdin_def resolve_def settle_def kill_def
      clearTimeout_def split: option.splits sum.splits type_error.splits)

lemma fold_process_line_stdout:
  "fold (process_line parse request) ls (s\<lparr>stdout := x\<rparr>) =
   (fold (process_line parse request) ls s)\<lparr>stdout := x\<rparr>"
  by (induction ls arbitrary: s) (simp_all add: process_line_stdout)

lemma on_stdout_lines:
  "on_stdout parse request chunk s =
     (fold (process_line parse request) (butlast (split_nl (stdout s @ chunk))) s)
       \<lparr>stdout := last (split_nl (stdout s @ chunk))\<rparr>"
  by (simp add: on_stdout_def Let_def fold_process_line_stdout)

lemma on_stdout_twice:
  "on_stdout parse request b (on_stdout parse request a s) = on_stdout parse request (a @ b) s"
proof -
  let ?la = "split_nl (stdout s @ a)"
  have sp: "split_nl (stdout s @ a @ b) = butlast ?la @ split_nl (last ?la @ b)"
    using split_nl_append [of "stdout s @ a" b] by simp
  have ne: "split_nl (last ?la @ b) \<noteq> []" by (rule split_nl_ne)
  show ?thesis
    by (simp add: on_stdout_lines sp ne butlast_append last_append fold_process_line_stdout)
qed

lemma run_data_events:
  "run parse request (map StdoutData (c # cs)) s = on_stdout parse request (concat (c # cs)) s"
proof (induction cs arbitrary: c s)
  case Nil
  show ?case by (simp add: run_def)
next
  case (Cons d cs)
  have "run parse request (map StdoutData (c # d # cs)) s =
        run parse request (map StdoutData (d # cs)) (on_stdout parse request c s)"
    by (simp add: run_def)
  also have "\<dots> = on_stdout parse request (concat (d # cs)) (on_stdout parse request c s)"
    by (rule Cons.IH)
  also have "\<dots> = on_stdout parse request (c @ concat (d # cs)) s"
    by (rule on_stdout_twice)
  finally show ?case by simp
qed


subsection \<open>The example lines, evaluated\<close>

lemma nl_ack: "newline \<notin> set ack_line" by (simp add: ack_line_def newline_def)
lemma nl_abc: "newline \<notin> set abc_line" by (simp add: abc_line_def newline_def)
lemma nl_log: "newline \<notin> set log_line" by (simp add: log_line_def newline_def)
lemma trim_ack: "trim ack_line = ack_line" by (simp add: trim_def whitespace_def ack_line_def)
lemma trim_abc: "trim abc_line = abc_line" by (simp add: trim_def whitespace_def abc_line_def)
lemma trim_log: "trim log_line = log_line" by (simp add: trim_def whitespace_def log_line_def)
lemma ack_ne_abc: "ack_line \<noteq> abc_line" by (simp add: ack_line_def abc_line_def)
lemma parse_ack: "example_parse ack_line = Some ack_msg" by (simp add: example_parse_def)
lemma parse_abc: "example_parse abc_line = Some abc_msg" using ack_ne_abc by (simp add: example_parse_def)
lemma parse_log: "example_parse log_line = None"
  by (simp add: example_parse_def log_line_def ack_line_def abc_line_def)
lemma ne_ack: "ack_line \<noteq> []" by (simp add: ack_line_def)
lemma ne_abc: "abc_line \<noteq> []" by (simp add: abc_line_def)
lemma ne_log: "log_line \<noteq> []" by (simp add: log_line_def)

lemmas example_lines = trim_ack trim_abc trim_log parse_ack parse_abc parse_log ne_ack ne_abc ne_log

lemma on_stdout_one_line:
  assumes "newline \<notin> set l" and "stdout s = []"
  shows "on_stdout parse request (l @ [newline]) s = process_line parse request l s"
proof -
  have "split_nl (l @ [newline]) = [l, []]"
    using split_nl_line [OF assms(1), of "[]"] by simp
  then have "on_stdout parse request (l @ [newline]) s
      = (process_line parse request l s)\<lparr>stdout := []\<rparr>"
    using assms(2) by (simp add: on_stdout_lines)
  also have "\<dots> = process_line parse request l (s\<lparr>stdout := []\<rparr>)"
    by (simp add: process_line_stdout)
  also have "s\<lparr>stdout := []\<rparr> = s"
    using assms(2) by simp
  finally show ?thesis .
qed


lemma after_ack: "callMcpServer example_parse request [StdoutData (ack_line @ [newline])] = acked request"
  by (simp add: callMcpServer_def run_def on_stdout_one_line nl_ack spawned_def process_line_def
     example_lines ack_msg_def write_stdin_def acked_def)

lemma after_abc:
 "on_stdout example_parse abc_request (abc_line @ [newline]) (acked abc_request)
   = (acked abc_request)\<lparr>timeoutId := None, kills := 1, promise := Resolved abc_msg, settledAt := Some 0\<rparr>"
  by (simp add: on_stdout_one_line nl_abc acked_def spawned_def process_line_def
     example_lines abc_msg_def abc_request_def write_stdin_def resolve_def settle_def kill_def clearTimeout_def)


subsection \<open>Invariants of a session\<close>

lemma process_line_cases:
  "process_line parse request raw s = s
   \<or> (\<not> initialized s \<and> process_line parse request raw s = handshake request s)
   \<or> (correlates parse request raw \<and>
       (\<exists>msg. parse (trim raw) = Some msg \<and> answers request msg \<and>
          process_line parse request raw s = resolve msg (kill (clearTimeout s))))"
  by (auto simp: process_line_def correlates_def answers_def handshake_def Let_def
      split: option.splits sum.splits type_error.splits)

lemma inv_spawned: "inv spawned"
  by (simp add: inv_def spawned_def timeout_ms_def)

lemma inv_handshake: "inv s \<Longrightarrow> inv (handshake request s)"
  by (simp add: inv_def handshake_def write_stdin_def)

lemma inv_resolve: "inv s \<Longrightarrow> inv (resolve msg (kill (clearTimeout s)))"
  by (auto simp: inv_def resolve_def settle_def kill_def clearTimeout_def split: option.splits)

lemma inv_process_line: "inv s \<Longrightarrow> inv (process_line parse request raw s)"
  using process_line_cases [of parse request raw s] inv_handshake inv_resolve by metis

lemma inv_fold_process_line: "inv s \<Longrightarrow> inv (fold (process_line parse request) ls s)"
  by (induction ls arbitrary: s) (simp_all add: inv_process_line)

lemma inv_stdout_upd: "inv (s\<lparr>stdout := x\<rparr>) = inv s"
  by (simp add: inv_def)

lemma inv_on_stdout: "inv s \<Longrightarrow> inv (on_stdout parse request chunk s)"
  by (simp add: on_stdout_lines inv_stdout_upd inv_fold_process_line)

lemma inv_on_stderr: "inv s \<Longrightarrow> inv (on_stderr chunk s)"
  by (simp add: inv_def on_stderr_def)

lemma inv_on_error: "inv s \<Longrightarrow> inv (on_error err s)"
  by (auto simp: inv_def on_error_def reject_def settle_def clearTimeout_def split: option.splits)

lemma inv_on_exit: "inv s \<Longrightarrow> inv (on_exit code s)"
  by (auto simp: inv_def on_exit_def reject_def settle_def split: option.splits)

lemma inv_elapse: "inv s \<Longrightarrow> inv (elapse d s)"
  by (auto simp: inv_def elapse_def on_timeout_def reject_def settle_def kill_def Let_def
      split: option.splits)

lemma inv_handle: "inv s \<Longrightarrow> inv (handle parse request e s)"
  by (cases e) (simp_all add: inv_on_stdout inv_on_stderr inv_on_error inv_on_exit inv_elapse)

lemma inv_run: "inv s \<Longrightarrow> inv (run parse request evs s)"
  unfolding run_def by (induction evs arbitrary: s) (simp_all add: inv_handle)

lemma inv_callMcpServer: "inv (callMcpServer parse request evs)"
  by (simp add: callMcpServer_def inv_run inv_spawned)

text \<open>The ghost clock counts the milliseconds of the events.\<close>

lemma clock_process_line: "clock (process_line parse request raw s) = clock s"
  using process_line_cases [of parse request raw s]
  by (auto simp: handshake_def write_stdin_def resolve_def settle_def kill_def clearTimeout_def)

lemma clock_fold_process_line: "clock (fold (process_line parse request) ls s) = clock s"
  by (induction ls arbitrary: s) (simp_all add: clock_process_line)

lemma clock_handle: "clock (handle parse request e s) = clock s + elapsed [e]"
  by (cases e)
     (auto simp: on_stdout_lines clock_fold_process_line on_stderr_def on_error_def on_exit_def
        reject_def settle_def clearTimeout_def elapse_def on_timeout_def kill_def Let_def
        split: option.splits)

lemma elapsed_Cons: "elapsed (e # evs) = elapsed [e] + elapsed evs"
  by (cases e) simp_all

lemma clock_run: "clock (run parse request evs s) = clock s + elapsed evs"
proof (induction evs arbitrary: s)
  case Nil
  show ?case by (simp add: run_def)
next
  case (Cons e evs)
  have "run parse request (e # evs) s = run parse request evs (handle parse request e s)"
    by (simp add: run_def)
  with Cons [of "handle parse request e s"] show ?case
    using elapsed_Cons [of e evs] by (simp add: clock_handle)
qed

lemma clock_callMcpServer: "clock (callMcpServer parse request evs) = elapsed evs"
  by (simp add: callMcpServer_def clock_run spawned_def)

lemma settles_by_deadline:
  assumes "timeout_ms \<le> elapsed evs"
  shows "\<exists>t\<le>timeout_ms. settledAt (callMcpServer parse request evs) = Some t
          \<and> promise (callMcpServer parse request evs) \<noteq> Pending"
proof -
  let ?s = "callMcpServer parse request evs"
  have i: "inv ?s" by (rule inv_callMcpServer)
  have c: "clock ?s = elapsed evs" by (rule clock_callMcpServer)
  have "promise ?s \<noteq> Pending"
  proof (cases "timeoutId ?s")
    case None
    with i show ?thesis by (simp add: inv_def)
  next
    case (Some r)
    with i have "0 < r" "clock ?s + r = timeout_ms" by (simp_all add: inv_def)
    with c assms show ?thesis by simp
  qed
  with i show ?thesis by (auto simp: inv_def)
qed

subsection \<open>Sessions with no correlated line and no error\<close>







lemma run_append: "run parse request (evs @ evs') s = run parse request evs' (run parse request evs s)"
  by (simp add: run_def)


lemma elapse_fires:
  assumes "timeoutId s = Some r" and "r \<le> d"
  shows "elapse d s = (on_timeout (s\<lparr>clock := clock s + r, timeoutId := None\<rparr>))
            \<lparr>clock := clock s + d\<rparr>"
  using assms by (simp add: elapse_def Let_def on_timeout_def reject_def settle_def kill_def)



subsection \<open>The timeout\<close>







lemma pending_elapse:
  assumes "inv s" and "promise s = Pending"
  shows "clock s < timeout_ms"
    and "clock s + d < timeout_ms \<Longrightarrow> promise (elapse d s) = Pending"
    and "timeout_ms \<le> clock s + d \<Longrightarrow>
           promise (elapse d s) = Rejected timeout_error \<and> settledAt (elapse d s) = Some timeout_ms
           \<and> kills (elapse d s) = 1"
proof -
  from assms obtain r where r: "timeoutId s = Some r" "0 < r" "clock s + r = timeout_ms"
    and k: "kills s = 0"
    by (cases "timeoutId s") (auto simp: inv_def)
  then show "clock s < timeout_ms" by simp
  show "promise (elapse d s) = Pending" if "clock s + d < timeout_ms"
    using that r assms(2) by (simp add: elapse_def)
  show "promise (elapse d s) = Rejected timeout_error \<and> settledAt (elapse d s) = Some timeout_ms
           \<and> kills (elapse d s) = 1" if "timeout_ms \<le> clock s + d"
  proof -
    from that r have "r \<le> d" by simp
    from elapse_fires [OF r(1) this] assms(2) r(3) k show ?thesis
      by (simp add: on_timeout_def reject_def settle_def kill_def timeout_error_def)
  qed
qed



subsection \<open>Killing the subprocess\<close>

lemma process_line_effect:
  "kills s \<le> kills (process_line parse request raw s)
   \<and> (\<exists>rest. stdin (process_line parse request raw s) = stdin s @ rest)
   \<and> (promise s \<noteq> Pending \<longrightarrow> promise (process_line parse request raw s) = promise s)
   \<and> (timeoutId s = None \<longrightarrow> timeoutId (process_line parse request raw s) = None)
   \<and> (promise s = Pending \<and> promise (process_line parse request raw s) \<noteq> Pending \<longrightarrow>
        (\<exists>msg. promise (process_line parse request raw s) = Resolved msg \<and> answers request msg)
        \<and> kills (process_line parse request raw s) = Suc (kills s)
        \<and> timeoutId (process_line parse request raw s) = None)"
  using process_line_cases [of parse request raw s]
  by (auto simp: handshake_def write_stdin_def resolve_def settle_def kill_def clearTimeout_def)

lemma fold_process_line_effect:
  "kills s \<le> kills (fold (process_line parse request) ls s)
   \<and> (\<exists>rest. stdin (fold (process_line parse request) ls s) = stdin s @ rest)
   \<and> (promise s \<noteq> Pending \<longrightarrow> promise (fold (process_line parse request) ls s) = promise s)
   \<and> (timeoutId s = None \<longrightarrow> timeoutId (fold (process_line parse request) ls s) = None)
   \<and> (promise s = Pending \<and> promise (fold (process_line parse request) ls s) \<noteq> Pending \<longrightarrow>
        (\<exists>msg. promise (fold (process_line parse request) ls s) = Resolved msg \<and> answers request msg)
        \<and> Suc (kills s) \<le> kills (fold (process_line parse request) ls s)
        \<and> timeoutId (fold (process_line parse request) ls s) = None)"
proof (induction ls arbitrary: s)
  case Nil
  show ?case by simp
next
  case (Cons l ls)
  let ?s = "process_line parse request l s"
  note one = process_line_effect [of s parse request l]
  note ih = Cons.IH [of ?s]
  have f: "fold (process_line parse request) (l # ls) s = fold (process_line parse request) ls ?s"
    by simp
  show ?case
  proof (cases "promise ?s = Pending")
    case True
    with one have "promise s = Pending" by auto
    with True one ih show ?thesis unfolding f by (auto simp: le_Suc_eq)
  next
    case False
    with one ih show ?thesis unfolding f by (cases "promise s = Pending") auto
  qed
qed

lemma on_stdout_effect:
  "kills s \<le> kills (on_stdout parse request chunk s)
   \<and> (\<exists>rest. stdin (on_stdout parse request chunk s) = stdin s @ rest)
   \<and> (promise s \<noteq> Pending \<longrightarrow> promise (on_stdout parse request chunk s) = promise s)
   \<and> (promise s = Pending \<and> promise (on_stdout parse request chunk s) \<noteq> Pending \<longrightarrow>
        (\<exists>msg. promise (on_stdout parse request chunk s) = Resolved msg \<and> answers request msg)
        \<and> Suc (kills s) \<le> kills (on_stdout parse request chunk s)
        \<and> timeoutId (on_stdout parse request chunk s) = None)"
  using fold_process_line_effect [of s parse request "butlast (split_nl (stdout s @ chunk))"]
  by (simp add: on_stdout_lines)

text \<open>
  C4, as amended. \<open>proc.kill()\<close> is never called while the promise is pending. The
  event that settles the promise is a stdout chunk, an \<open>error\<close> event, an exit with a
  non-zero status or the timer. When a stdout chunk settles it, the promise is resolved
  and \<open>proc.kill()\<close> has been called; when the timer settles it, the promise is
  rejected with the timeout error and \<open>proc.kill()\<close> has been called exactly once;
  when an \<open>error\<close> event or a non-zero exit settles it, the promise is rejected with
  that error and \<open>proc.kill()\<close> has not been called.
\<close>

theorem kill_when_promise_settles:
  assumes "promise (callMcpServer parse request evs) = Pending"
    and "promise (handle parse request e (callMcpServer parse request evs)) \<noteq> Pending"
  shows "kills (callMcpServer parse request evs) = 0
   \<and> (case e of
        StdoutData chunk \<Rightarrow>
          (\<exists>msg. promise (handle parse request e (callMcpServer parse request evs)) = Resolved msg)
          \<and> 1 \<le> kills (handle parse request e (callMcpServer parse request evs))
      | StderrData chunk \<Rightarrow> False
      | ProcError err \<Rightarrow>
          promise (handle parse request e (callMcpServer parse request evs)) = Rejected err
          \<and> kills (handle parse request e (callMcpServer parse request evs)) = 0
      | ProcExit code \<Rightarrow>
          (\<exists>c. code = Some c \<and> c \<noteq> 0
             \<and> promise (handle parse request e (callMcpServer parse request evs))
                 = Rejected (exit_error c (stderr (callMcpServer parse request evs))))
          \<and> kills (handle parse request e (callMcpServer parse request evs)) = 0
      | Elapse d \<Rightarrow>
          promise (handle parse request e (callMcpServer parse request evs)) = Rejected timeout_error
          \<and> kills (handle parse request e (callMcpServer parse request evs)) = 1)"
proof -
  let ?s = "callMcpServer parse request evs"
  have i: "inv ?s" by (rule inv_callMcpServer)
  with assms(1) have k: "kills ?s = 0" by (simp add: inv_def)
  have "case e of
        StdoutData chunk \<Rightarrow>
          (\<exists>msg. promise (handle parse request e ?s) = Resolved msg)
          \<and> 1 \<le> kills (handle parse request e ?s)
      | StderrData chunk \<Rightarrow> False
      | ProcError err \<Rightarrow>
          promise (handle parse request e ?s) = Rejected err \<and> kills (handle parse request e ?s) = 0
      | ProcExit code \<Rightarrow>
          (\<exists>c. code = Some c \<and> c \<noteq> 0
             \<and> promise (handle parse request e ?s) = Rejected (exit_error c (stderr ?s)))
          \<and> kills (handle parse request e ?s) = 0
      | Elapse d \<Rightarrow>
          promise (handle parse request e ?s) = Rejected timeout_error
          \<and> kills (handle parse request e ?s) = 1"
  proof (cases e)
    case (StdoutData chunk)
    with assms on_stdout_effect [of ?s parse request chunk] show ?thesis by auto
  next
    case (StderrData chunk)
    with assms show ?thesis by (simp add: on_stderr_def)
  next
    case (ProcError err)
    with assms k show ?thesis by (simp add: on_error_def reject_def settle_def clearTimeout_def)
  next
    case (ProcExit code)
    with assms k show ?thesis
      by (cases code) (auto simp: on_exit_def reject_def settle_def exit_error_def split: if_splits)
  next
    case (Elapse d)
    have "timeout_ms \<le> clock ?s + d"
    proof (rule ccontr)
      assume "\<not> timeout_ms \<le> clock ?s + d"
      then have "promise (elapse d ?s) = Pending"
        using pending_elapse(2) [OF i assms(1), of d] by simp
      with assms(2) Elapse show False by simp
    qed
    from pending_elapse(3) [OF i assms(1) this] Elapse show ?thesis by simp
  qed
  with k show ?thesis by simp
qed

lemma on_stdout_unlines:
  assumes "\<forall>l\<in>set ls. newline \<notin> set l" and "stdout s = []"
  shows "on_stdout parse request (unlines ls) s = fold (process_line parse request) ls s"
proof -
  have "split_nl (unlines ls @ []) = ls @ [[]]"
    unfolding unlines_def by (rule split_nl_unlines) (simp_all add: assms(1))
  then have "on_stdout parse request (unlines ls) s
      = (fold (process_line parse request) ls s)\<lparr>stdout := []\<rparr>"
    using assms(2) by (simp add: on_stdout_lines)
  also have "\<dots> = fold (process_line parse request) ls (s\<lparr>stdout := []\<rparr>)"
    by (simp add: fold_process_line_stdout)
  also have "s\<lparr>stdout := []\<rparr> = s" using assms(2) by simp
  finally show ?thesis .
qed

lemma process_ack: "process_line example_parse request ack_line spawned = acked request"
  by (simp add: spawned_def process_line_def example_lines ack_msg_def write_stdin_def acked_def)

lemma process_abc: "process_line example_parse abc_request abc_line (acked abc_request) = answered"
  by (simp add: acked_def spawned_def process_line_def answered_def
     example_lines abc_msg_def abc_request_def write_stdin_def resolve_def settle_def kill_def clearTimeout_def)

lemma process_abc_again: "process_line example_parse abc_request abc_line answered = answered\<lparr>kills := 2\<rparr>"
  by (simp add: acked_def spawned_def process_line_def answered_def
     example_lines abc_msg_def abc_request_def write_stdin_def resolve_def settle_def kill_def clearTimeout_def)

text \<open>
  C4 on the success path: after the acknowledgement the promise is pending and nothing
  is killed; the chunk with the response resolves it and the subprocess is killed.
\<close>

theorem kill_when_promise_settles_witness:
  "promise (handle example_parse abc_request (StdoutData (unlines [abc_line]))
      (callMcpServer example_parse abc_request [StdoutData (unlines [ack_line])])) = Resolved abc_msg
   \<and> kills (callMcpServer example_parse abc_request [StdoutData (unlines [ack_line])]) = 0
   \<and> 1 \<le> kills (handle example_parse abc_request (StdoutData (unlines [abc_line]))
      (callMcpServer example_parse abc_request [StdoutData (unlines [ack_line])]))"
proof -
  have a: "callMcpServer example_parse abc_request [StdoutData (unlines [ack_line])] = acked abc_request"
    using after_ack [of abc_request] by (simp add: unlines_def)
  have b: "on_stdout example_parse abc_request (unlines [abc_line]) (acked abc_request) = answered"
    using after_abc by (simp add: unlines_def answered_def)
  have p: "promise (acked abc_request) = Pending" by (simp add: acked_def spawned_def)
  have q: "promise answered \<noteq> Pending" by (simp add: answered_def)
  show ?thesis
    using kill_when_promise_settles [of example_parse abc_request "[StdoutData (unlines [ack_line])]"
        "StdoutData (unlines [abc_line])"] p q
    by (simp add: a b answered_def)
qed

text \<open>
  C4 as stated fails: when the subprocess cannot be spawned the promise is rejected and
  \<open>proc.kill()\<close> is never called; and when the response line occurs twice in a chunk
  \<open>proc.kill()\<close> is called twice, since the loop goes on after a match.
\<close>

theorem terminated_exactly_once_counterexample:
  "promise (callMcpServer example_parse abc_request [ProcError (Error ''spawn node ENOENT'')])
     = Rejected (Error ''spawn node ENOENT'')
   \<and> kills (callMcpServer example_parse abc_request [ProcError (Error ''spawn node ENOENT'')]) = 0
   \<and> promise (callMcpServer example_parse abc_request
        [StdoutData (unlines [ack_line, abc_line, abc_line])]) = Resolved abc_msg
   \<and> kills (callMcpServer example_parse abc_request
        [StdoutData (unlines [ack_line, abc_line, abc_line])]) = 2"
proof -
  have "callMcpServer example_parse abc_request [StdoutData (unlines [ack_line, abc_line, abc_line])]
      = fold (process_line example_parse abc_request) [ack_line, abc_line, abc_line] spawned"
    unfolding callMcpServer_def run_def
    by (simp add: on_stdout_unlines nl_ack nl_abc spawned_def)
  also have "\<dots> = answered\<lparr>kills := 2\<rparr>"
    by (simp add: process_ack process_abc process_abc_again)
  finally show ?thesis
    by (simp add: answered_def)
      (simp add: callMcpServer_def run_def spawned_def on_error_def reject_def settle_def clearTimeout_def)
qed

subsection \<open>Correlation by identifier\<close>

lemma strict_eq_eq: "strict_eq a b \<Longrightarrow> a = b"
  by (induction a b rule: strict_eq.induct) auto

lemma answers_id: "answers request msg \<Longrightarrow> get_prop ''id'' msg = get_prop ''id'' request"
  by (auto simp: answers_def split: sum.splits dest: strict_eq_eq)

lemma handle_effect:
  "(\<exists>rest. stdin (handle parse request e s) = stdin s @ rest)
   \<and> ((\<forall>msg. promise s = Resolved msg \<longrightarrow> answers request msg) \<longrightarrow>
       (\<forall>msg. promise (handle parse request e s) = Resolved msg \<longrightarrow> answers request msg))"
proof (cases e)
  case (StdoutData chunk)
  with on_stdout_effect [of s parse request chunk] show ?thesis
    by (cases "promise s = Pending") auto
next
  case (StderrData chunk)
  then show ?thesis by (simp add: on_stderr_def)
next
  case (ProcError err)
  then show ?thesis by (simp add: on_error_def reject_def settle_def clearTimeout_def)
next
  case (ProcExit code)
  then show ?thesis by (cases code) (simp_all add: on_exit_def reject_def settle_def)
next
  case (Elapse d)
  then show ?thesis
    by (auto simp: elapse_def on_timeout_def reject_def settle_def kill_def Let_def split: option.splits)
qed

lemma run_effect:
  "(\<exists>rest. stdin (run parse request evs s) = stdin s @ rest)
   \<and> ((\<forall>msg. promise s = Resolved msg \<longrightarrow> answers request msg) \<longrightarrow>
       (\<forall>msg. promise (run parse request evs s) = Resolved msg \<longrightarrow> answers request msg))"
proof (induction evs arbitrary: s)
  case Nil
  show ?case by (simp add: run_def)
next
  case (Cons e evs)
  have step: "run parse request (e # evs) s = run parse request evs (handle parse request e s)"
    by (simp add: run_def)
  from handle_effect [of parse request e s] Cons [of "handle parse request e s"]
  show ?case unfolding step by (metis append.assoc)
qed

lemma resolved_answers:
  "promise (callMcpServer parse request evs) = Resolved msg \<Longrightarrow> answers request msg"
  using run_effect [of parse request evs spawned]
  by (simp add: callMcpServer_def spawned_def)

lemma stdin_starts_with_initMsg:
  "\<exists>rest. stdin (callMcpServer parse request evs) = initMsg # rest"
  using run_effect [of parse request evs spawned]
  by (auto simp: callMcpServer_def spawned_def)

text \<open>
  C2, as amended. The first message written to the subprocess is the handshake, whose
  identifier is \<open>init\<close>. Whatever resolves the promise is a message whose \<open>id\<close>
  equals the \<open>id\<close> of the caller's request. For every request whose identifier is not
  the string \<open>init\<close>, the handshake identifier differs from the request's, and no
  message with the identifier \<open>init\<close> resolves the promise.
\<close>

theorem reserved_id_not_resolved:
  "get_prop ''id'' initMsg = Inr (Some (JStr ''init''))
   \<and> (\<exists>rest. stdin (callMcpServer parse request evs) = initMsg # rest)
   \<and> (promise (callMcpServer parse request evs) = Resolved msg \<longrightarrow>
        answers request msg \<and> get_prop ''id'' msg = get_prop ''id'' request)
   \<and> (get_prop ''id'' request \<noteq> Inr (Some (JStr ''init'')) \<longrightarrow>
        get_prop ''id'' initMsg \<noteq> get_prop ''id'' request
      \<and> (promise (callMcpServer parse request evs) = Resolved msg \<longrightarrow>
            get_prop ''id'' msg \<noteq> Inr (Some (JStr ''init''))))"
proof -
  have a: "get_prop ''id'' initMsg = Inr (Some (JStr ''init''))"
    by (simp add: initMsg_def)
  have b: "answers request msg \<and> get_prop ''id'' msg = get_prop ''id'' request"
    if "promise (callMcpServer parse request evs) = Resolved msg"
    using resolved_answers [OF that] answers_id by blast
  from a b stdin_starts_with_initMsg [of parse request evs] show ?thesis
    by auto
qed

text \<open>
  C2 on the request \<open>abc\<close>: the acknowledgement of the handshake is consumed, the
  promise resolves with the response \<open>abc\<close>.
\<close>

theorem reserved_id_not_resolved_witness:
  "promise (callMcpServer example_parse abc_request [StdoutData (unlines [ack_line, abc_line])])
     = Resolved abc_msg
   \<and> get_prop ''id'' abc_request = Inr (Some (JStr ''abc''))
   \<and> get_prop ''id'' abc_msg = Inr (Some (JStr ''abc''))
   \<and> get_prop ''id'' initMsg \<noteq> get_prop ''id'' abc_request
   \<and> get_prop ''id'' abc_msg \<noteq> Inr (Some (JStr ''init''))"
proof -
  have "callMcpServer example_parse abc_request [StdoutData (unlines [ack_line, abc_line])]
      = fold (process_line example_parse abc_request) [ack_line, abc_line] spawned"
    unfolding callMcpServer_def run_def
    by (simp add: on_stdout_unlines nl_ack nl_abc spawned_def)
  also have "\<dots> = answered"
    by (simp add: process_ack process_abc)
  finally have p: "promise (callMcpServer example_parse abc_request
      [StdoutData (unlines [ack_line, abc_line])]) = Resolved abc_msg"
    by (simp add: answered_def)
  have r: "get_prop ''id'' abc_request = Inr (Some (JStr ''abc''))"
    by (simp add: abc_request_def)
  show ?thesis
    using reserved_id_not_resolved [of example_parse abc_request
        "[StdoutData (unlines [ack_line, abc_line])]" abc_msg] p r
    by simp
qed

lemma process_ack_again:
  "process_line example_parse init_request ack_line (acked init_request)
   = (acked init_request)\<lparr>timeoutId := None, kills := 1, promise := Resolved ack_msg,
        settledAt := Some 0\<rparr>"
  by (simp add: acked_def spawned_def process_line_def init_request_def
     example_lines ack_msg_def write_stdin_def resolve_def settle_def kill_def clearTimeout_def)

text \<open>
  C2 as stated fails for a caller whose request has the identifier \<open>init\<close>: the
  handshake carries the same identifier, and the second message with the identifier
  \<open>init\<close> resolves the caller's promise.
\<close>

theorem reserved_id_counterexample:
  "get_prop ''id'' init_request = get_prop ''id'' initMsg
   \<and> promise (callMcpServer example_parse init_request [StdoutData (unlines [ack_line, ack_line])])
       = Resolved ack_msg
   \<and> get_prop ''id'' ack_msg = Inr (Some (JStr ''init''))"
proof -
  have "callMcpServer example_parse init_request [StdoutData (unlines [ack_line, ack_line])]
      = fold (process_line example_parse init_request) [ack_line, ack_line] spawned"
    unfolding callMcpServer_def run_def
    by (simp add: on_stdout_unlines nl_ack spawned_def)
  also have "\<dots> = (acked init_request)\<lparr>timeoutId := None, kills := 1,
      promise := Resolved ack_msg, settledAt := Some 0\<rparr>"
    by (simp add: process_ack process_ack_again)
  finally show ?thesis
    by (simp add: init_request_def initMsg_def ack_msg_def)
qed

subsection \<open>Lines that are not JSON\<close>

lemma process_line_not_json: "parse (trim raw) = None \<Longrightarrow> process_line parse request raw s = s"
  by (simp add: process_line_def Let_def)

lemma fold_process_line_filter:
  "fold (process_line parse request) ls s
   = fold (process_line parse request) (filter (\<lambda>l. parse (trim l) \<noteq> None) ls) s"
  by (induction ls arbitrary: s) (simp_all add: process_line_not_json)

lemma callMcpServer_stream:
  assumes "\<forall>l\<in>set ls. newline \<notin> set l" and "newline \<notin> set r"
    and "concat (c # cs) = unlines ls @ r"
  shows "callMcpServer parse request (map StdoutData (c # cs))
     = (fold (process_line parse request) ls spawned)\<lparr>stdout := r\<rparr>"
proof -
  have "callMcpServer parse request (map StdoutData (c # cs))
      = on_stdout parse request (unlines ls @ r) spawned"
    unfolding callMcpServer_def using run_data_events [of parse request c cs spawned] assms(3)
    by simp
  moreover have "split_nl (unlines ls @ r) = ls @ [r]"
    unfolding unlines_def by (rule split_nl_unlines) (simp_all add: assms)
  ultimately show ?thesis
    by (simp add: on_stdout_lines spawned_def)
qed

text \<open>
  C6. A line that does not parse leaves the session as it is. Whatever the chunks, a
  stream of complete lines followed by an incomplete one leaves the session in the state
  that processing its parsable lines alone leaves it in; so two streams with the same
  parsable lines, in the same order, leave the same session, with the same promise.
\<close>

theorem noise_lines_discarded:
  "(parse (trim raw) = None \<longrightarrow> process_line parse request raw s = s)
   \<and> ((\<forall>l\<in>set ls. newline \<notin> set l) \<and> newline \<notin> set r \<and> concat (c # cs) = unlines ls @ r \<longrightarrow>
        callMcpServer parse request (map StdoutData (c # cs))
        = (fold (process_line parse request) (filter (\<lambda>l. parse (trim l) \<noteq> None) ls) spawned)
            \<lparr>stdout := r\<rparr>)
   \<and> ((\<forall>l\<in>set ls. newline \<notin> set l) \<and> (\<forall>l\<in>set ls'. newline \<notin> set l)
       \<and> filter (\<lambda>l. parse (trim l) \<noteq> None) ls = filter (\<lambda>l. parse (trim l) \<noteq> None) ls' \<longrightarrow>
        callMcpServer parse request [StdoutData (unlines ls)]
        = callMcpServer parse request [StdoutData (unlines ls')])"
proof (intro conjI impI)
  assume "parse (trim raw) = None"
  then show "process_line parse request raw s = s" by (rule process_line_not_json)
next
  assume "(\<forall>l\<in>set ls. newline \<notin> set l) \<and> newline \<notin> set r \<and> concat (c # cs) = unlines ls @ r"
  then show "callMcpServer parse request (map StdoutData (c # cs))
        = (fold (process_line parse request) (filter (\<lambda>l. parse (trim l) \<noteq> None) ls) spawned)
            \<lparr>stdout := r\<rparr>"
    using callMcpServer_stream [of ls r c cs parse request]
      fold_process_line_filter [of parse request ls spawned] by simp
next
  assume h: "(\<forall>l\<in>set ls. newline \<notin> set l) \<and> (\<forall>l\<in>set ls'. newline \<notin> set l)
       \<and> filter (\<lambda>l. parse (trim l) \<noteq> None) ls = filter (\<lambda>l. parse (trim l) \<noteq> None) ls'"
  have "callMcpServer parse request [StdoutData (unlines ls)]
      = (fold (process_line parse request) ls spawned)\<lparr>stdout := []\<rparr>"
    using callMcpServer_stream [of ls "[]" "unlines ls" "[]" parse request] h by simp
  moreover have "callMcpServer parse request [StdoutData (unlines ls')]
      = (fold (process_line parse request) ls' spawned)\<lparr>stdout := []\<rparr>"
    using callMcpServer_stream [of ls' "[]" "unlines ls'" "[]" parse request] h by simp
  ultimately show "callMcpServer parse request [StdoutData (unlines ls)]
        = callMcpServer parse request [StdoutData (unlines ls')]"
    using fold_process_line_filter [of parse request ls spawned]
      fold_process_line_filter [of parse request ls' spawned] h by simp
qed

text \<open>
  C6 on a stream with a log line before the acknowledgement and another before the
  response: the session is the one of the stream without the log lines, resolved with the
  response.
\<close>

theorem noise_lines_discarded_witness:
  "process_line example_parse abc_request log_line spawned = spawned
   \<and> callMcpServer example_parse abc_request
       [StdoutData (unlines [log_line, ack_line, log_line, abc_line])]
     = callMcpServer example_parse abc_request [StdoutData (unlines [ack_line, abc_line])]
   \<and> promise (callMcpServer example_parse abc_request
       [StdoutData (unlines [log_line, ack_line, log_line, abc_line])]) = Resolved abc_msg"
proof -
  have f: "filter (\<lambda>l. example_parse (trim l) \<noteq> None) [log_line, ack_line, log_line, abc_line]
      = filter (\<lambda>l. example_parse (trim l) \<noteq> None) [ack_line, abc_line]"
    by (simp add: example_lines)
  have n: "(\<forall>l\<in>set [log_line, ack_line, log_line, abc_line]. newline \<notin> set l)
      \<and> (\<forall>l\<in>set [ack_line, abc_line]. newline \<notin> set l)"
    by (simp add: nl_ack nl_abc nl_log)
  have "callMcpServer example_parse abc_request [StdoutData (unlines [ack_line, abc_line])]
      = fold (process_line example_parse abc_request) [ack_line, abc_line] spawned"
    unfolding callMcpServer_def run_def
    by (simp add: on_stdout_unlines nl_ack nl_abc spawned_def)
  also have "\<dots> = answered"
    by (simp add: process_ack process_abc)
  finally have p: "promise (callMcpServer example_parse abc_request
      [StdoutData (unlines [ack_line, abc_line])]) = Resolved abc_msg"
    by (simp add: answered_def)
  show ?thesis
    using noise_lines_discarded [where parse = example_parse and request = abc_request
        and raw = log_line and s = spawned
        and ls = "[log_line, ack_line, log_line, abc_line]" and ls' = "[ack_line, abc_line]"
        and r = "[]" and c = "[]" and cs = "[]"] f n p
    by (simp add: example_lines)
qed

subsection \<open>Awaiting sessions\<close>

lemma elapsed_append: "elapsed (evs @ evs') = elapsed evs + elapsed evs'"
proof (induction evs)
  case Nil
  show ?case by simp
next
  case (Cons e evs)
  then show ?case using elapsed_Cons [of e "evs @ evs'"] elapsed_Cons [of e evs] by simp
qed

lemma awaited_settles:
  "\<exists>t\<le>timeout_ms.
     (\<exists>msg. awaited parse request evs = Some (t, Inr msg) \<and> answers request msg)
     \<or> (\<exists>err. awaited parse request evs = Some (t, Inl err))"
proof -
  let ?s = "callMcpServer parse request (evs @ [Elapse timeout_ms])"
  have "timeout_ms \<le> elapsed (evs @ [Elapse timeout_ms])"
    by (simp add: elapsed_append)
  from settles_by_deadline [OF this, of parse request]
  obtain t where t: "t \<le> timeout_ms" "settledAt ?s = Some t" "promise ?s \<noteq> Pending"
    by blast
  show ?thesis
  proof (cases "promise ?s")
    case Pending
    with t show ?thesis by simp
  next
    case (Resolved msg)
    then have "answers request msg" by (rule resolved_answers)
    with Resolved t show ?thesis by (auto simp: awaited_def)
  next
    case (Rejected err)
    with t show ?thesis by (auto simp: awaited_def)
  qed
qed

lemma awaited_resolved_answers:
  "awaited parse request evs = Some (t, Inr msg) \<Longrightarrow> answers request msg"
  using awaited_settles [of parse request evs] by auto

lemma length_sessions: "length (sessions parse requests env) = length requests"
  by (simp add: sessions_def)

lemma nth_sessions:
  "i < length requests \<Longrightarrow> sessions parse requests env ! i = awaited parse (requests ! i) (env i)"
  by (simp add: sessions_def)



lemma no_rejections_resolutions:
  "rejections ps = [] \<Longrightarrow> None \<notin> set ps \<Longrightarrow> \<exists>vs. resolutions ps = Some vs"
  by (induction ps rule: rejections.induct) auto







lemma promise_all_settles:
  assumes "None \<notin> set ps"
  shows "promise_all ps \<noteq> None"
proof (cases "rejections ps")
  case Nil
  with no_rejections_resolutions [OF Nil assms] show ?thesis
    by (auto simp: promise_all_def)
next
  case (Cons r rs)
  then show ?thesis by (simp add: promise_all_def split: prod.splits)
qed

lemma sessions_settle: "None \<notin> set (sessions parse requests env)"
proof
  assume "None \<in> set (sessions parse requests env)"
  then obtain i where "i < length requests" "sessions parse requests env ! i = None"
    by (metis in_set_conv_nth length_sessions)
  then have "awaited parse (requests ! i) (env i) = None"
    by (simp add: nth_sessions)
  with awaited_settles [of parse "requests ! i" "env i"] show False by auto
qed

subsection \<open>Sessions of the examples, awaited\<close>

lemma process_ack_fresh:
  "\<not> initialized s \<Longrightarrow> process_line example_parse request ack_line s = handshake request s"
  by (simp add: process_line_def example_lines ack_msg_def handshake_def)

lemma process_abc_acked:
  "initialized s \<Longrightarrow> get_prop ''id'' request = Inr (Some (JStr ''abc'')) \<Longrightarrow>
   process_line example_parse request abc_line s = resolve abc_msg (kill (clearTimeout s))"
  by (simp add: process_line_def example_lines abc_msg_def)

lemma awaited_answers_at_once:
  assumes "get_prop ''id'' request = Inr (Some (JStr ''abc''))"
  shows "awaited example_parse request answers_at_once = Some (0, Inr abc_msg)"
proof -
  have "callMcpServer example_parse request (answers_at_once @ [Elapse timeout_ms])
      = elapse timeout_ms (fold (process_line example_parse request) [ack_line, abc_line] spawned)"
    unfolding callMcpServer_def run_def answers_at_once_def
    by (simp add: on_stdout_unlines nl_ack nl_abc spawned_def)
  then show ?thesis
    using assms
    by (simp add: awaited_def process_ack_fresh process_abc_acked spawned_def handshake_def
        write_stdin_def resolve_def settle_def kill_def clearTimeout_def elapse_def)
qed





lemma answers_abc: "answers abc_request abc_msg"
  by (simp add: answers_def abc_request_def abc_msg_def)

subsection \<open>POST /mcp\<close>

lemma post_mcp_replies:
  "outcome (post_mcp parse body env) \<noteq> NoReply"
  using promise_all_settles [OF sessions_settle [of parse "requests_of body" env]]
  by (auto simp: post_mcp_def Let_def split: option.splits sum.splits prod.splits type_error.splits)






subsection \<open>POST /run\<close>

lemma answers_uuid_object:
  assumes "answers (run_request uuid code) response"
  shows "\<exists>kvs. response = JObj kvs \<and> map_of kvs ''id'' = Some (JStr uuid)"
proof -
  have r: "get_prop ''id'' (run_request uuid code) = Inr (Some (JStr uuid))"
    by (simp add: run_request_def)
  from answers_id [OF assms] r have "get_prop ''id'' response = Inr (Some (JStr uuid))"
    by simp
  then show ?thesis by (cases response) simp_all
qed

text \<open>
  C8, as amended. For a body whose field \<open>code\<close> is a non-empty string, the handler
  calls \<open>callMcpServer\<close> once, with the request \<open>{jsonrpc: "2.0", id: <uuid>, method:
  "tools/call", params: {name: "run_code", arguments: {code: <the code>}}}\<close>, and always
  replies. When the session resolves, the response is an object and the reply has status
  200 and carries \<open>response.result || response.error\<close>; when the session fails the
  reply has status 500 and carries the message.
\<close>

theorem run_code_dispatch:
  assumes "map_of kvs ''code'' = Some (JStr code)" and "code \<noteq> []"
  shows "dispatched (post_run parse uuid (JObj kvs) env) = [run_request uuid (JStr code)]
   \<and> run_request uuid (JStr code) = JObj
        [(''jsonrpc'', JStr ''2.0''),
         (''id'', JStr uuid),
         (''method'', JStr ''tools/call''),
         (''params'', JObj [(''name'', JStr ''run_code''),
            (''arguments'', JObj [(''code'', JStr code)])])]
   \<and> (\<exists>rep. outcome (post_run parse uuid (JObj kvs) env) = Replied rep)
   \<and> (awaited parse (run_request uuid (JStr code)) env = Some (t, Inr response) \<longrightarrow>
        (\<exists>members. response = JObj members
           \<and> outcome (post_run parse uuid (JObj kvs) env) = Replied
                \<lparr>status = 200,
                 payload = js_or (map_of members ''result'') (map_of members ''error''),
                 sentAt = t\<rparr>))
   \<and> (awaited parse (run_request uuid (JStr code)) env = Some (t, Inl err) \<longrightarrow>
        outcome (post_run parse uuid (JObj kvs) env) = Replied
          \<lparr>status = 500, payload = Some (JObj [(''error'', JStr (message err))]), sentAt = t\<rparr>)"
proof -
  let ?req = "run_request uuid (JStr code)"
  have d: "dispatched (post_run parse uuid (JObj kvs) env) = [?req]"
    using assms by (simp add: post_run_def Let_def)
  have ok: "\<exists>members. response = JObj members
           \<and> outcome (post_run parse uuid (JObj kvs) env) = Replied
                \<lparr>status = 200,
                 payload = js_or (map_of members ''result'') (map_of members ''error''),
                 sentAt = t\<rparr>"
    if a: "awaited parse ?req env = Some (t, Inr response)" for t response
  proof -
    from awaited_resolved_answers [OF a] answers_uuid_object
    obtain members where "response = JObj members" by blast
    with a assms show ?thesis by (simp add: post_run_def Let_def)
  qed
  have bad: "outcome (post_run parse uuid (JObj kvs) env) = Replied
          \<lparr>status = 500, payload = Some (JObj [(''error'', JStr (message err))]), sentAt = t\<rparr>"
    if "awaited parse ?req env = Some (t, Inl err)" for t err
    using that assms by (simp add: post_run_def Let_def)
  have "\<exists>rep. outcome (post_run parse uuid (JObj kvs) env) = Replied rep"
    using awaited_settles [of parse ?req env] ok bad by blast
  with d ok bad show ?thesis
    by (simp add: run_request_def)
qed

text \<open>
  C8 on the body \<open>{code: "print(1)"}\<close> with a subprocess that answers at once with an
  empty result object.
\<close>

theorem run_code_dispatch_witness:
  "dispatched (post_run example_parse ''abc'' (JObj [(''code'', JStr ''print(1)'')]) answers_at_once)
     = [JObj
        [(''jsonrpc'', JStr ''2.0''),
         (''id'', JStr ''abc''),
         (''method'', JStr ''tools/call''),
         (''params'', JObj [(''name'', JStr ''run_code''),
            (''arguments'', JObj [(''code'', JStr ''print(1)'')])])]]
   \<and> outcome (post_run example_parse ''abc'' (JObj [(''code'', JStr ''print(1)'')]) answers_at_once)
     = Replied \<lparr>status = 200, payload = Some (JObj []), sentAt = 0\<rparr>"
proof -
  have i: "get_prop ''id'' (run_request ''abc'' (JStr ''print(1)'')) = Inr (Some (JStr ''abc''))"
    by (simp add: run_request_def)
  have a: "awaited example_parse (run_request ''abc'' (JStr ''print(1)'')) answers_at_once
      = Some (0, Inr abc_msg)"
    by (rule awaited_answers_at_once [OF i])
  have c: "map_of [(''code'', JStr ''print(1)'')] ''code'' = Some (JStr ''print(1)'')"
    and n: "''print(1)'' \<noteq> []"
    by simp_all
  from run_code_dispatch [OF c n, of example_parse "''abc''" answers_at_once 0 abc_msg] a
  show ?thesis
    by (auto simp: abc_msg_def js_or_def)
qed

text \<open>
  C8 as stated fails for the string field \<open>code: ""\<close>: the empty string is falsy, the
  reply is 400 and nothing is dispatched.
\<close>

theorem empty_code_counterexample:
  "post_run example_parse ''abc'' (JObj [(''code'', JStr [])]) answers_at_once
   = \<lparr>dispatched = [],
      outcome = Replied \<lparr>status = 400,
        payload = Some (JObj [(''error'', JStr ''code is required'')]), sentAt = 0\<rparr>\<rparr>"
  by (simp add: post_run_def)



end
